theory Spec2Isabelle
  imports Main
begin

section \<open>Data model of the crawler (internal/crawl/crawl.go)\<close>

text \<open>
  Go strings and byte slices are sequences of bytes; both are modelled as \<open>char list\<close>
  (an Isabelle \<open>char\<close> is one byte), so \<open>[]byte(s)\<close> and \<open>string(b)\<close> are the identity
  on the contents. A Go \<open>[]byte\<close> can moreover be \<open>nil\<close>, which has length 0 but is
  distinguishable from an allocated empty slice.
\<close>

datatype byteslice = NilSlice | Slice "char list"

fun contents :: "byteslice \<Rightarrow> char list" where
  "contents NilSlice = []"
| "contents (Slice bs) = bs"

text \<open>
  Go's \<open>error\<close> values. Errors produced by code outside this file (net/http, io, the JSON
  decoder, the schema validator) are opaque and carried by their message; the four errors
  built in crawl.go keep the values their format strings interpolate.
\<close>

datatype error =
    ExtError string
  | ParseError error
  | TooManyLines
  | NotFound string
  | StatusError string int

text \<open>
  Modelled from the spec: the package \<open>internal/schemas/v1\<close> declares the manifest types
  but is not part of the sources at hand. Only the fields crawl.go touches are kept: a URL
  reference carries the URL and its \<open>WellKnown\<close> disclosure-list pointer, the entity has a
  webpage URL, a project a webpage and a repository URL, and the manifest its own
  \<open>URL\<close>, the raw \<open>Body\<close>, the entity and the ordered projects.
\<close>

record URLRef =
  Ref :: string
  WellKnown :: string

record Entity =
  WebpageURL :: URLRef

record Project =
  WebpageURL :: URLRef
  RepositoryUrl :: URLRef

record Manifest =
  URL :: string
  Body :: byteslice
  Entity :: Entity
  Projects :: "Project list"

record Opt =
  UserAgent :: string
  MaxHostConns :: int
  ReqTimeout :: int
  Attempts :: int
  MaxBytes :: int

text \<open>
  net/http values, as far as doReq reads or writes them: the parsed URL of a request with
  its \<open>RawQuery\<close>, the request, and the response with its status code and its body
  stream. A body stream delivers some bytes and then ends, either with EOF (\<open>None\<close>) or
  with a read error.
\<close>

type_synonym header = "(string \<times> string) list"

record url =
  Scheme :: string
  Host :: string
  Path :: string
  RawQuery :: string
  Fragment :: string

record request =
  Method :: string
  reqURL :: url
  Header :: header
  reqBody :: "char list option"

type_synonym stream = "char list \<times> error option"

record response =
  StatusCode :: int
  respBody :: stream

text \<open>
  The \<open>Crawl\<close> struct. The schema validator \<open>sc\<close> returns a manifest and an error, as the
  Go interface does. The HTTP client \<open>hc\<close> is the network: it answers the request handed
  to \<open>Do\<close>, and its answer may differ from call to call, so it also takes the number of
  requests sent before. The logger \<open>lo\<close> writes to the log kept in the world below.
\<close>

record Crawl =
  opt :: Opt
  sc :: "Manifest \<Rightarrow> Manifest \<times> error option"
  headers :: "header option"
  hc :: "nat \<Rightarrow> request \<Rightarrow> error + response"

text \<open>
  Functions the code calls whose code is not among the sources, taken as parameters:
  \<open>http.NewRequest\<close> of the Go library (parses the URL, fails on a malformed one) and
  \<open>UnmarshalJSON\<close> of the manifest type in \<open>internal/schemas/v1\<close> (gives the manifest as
  decoding left it, and the decoding error).
\<close>

record lib =
  NewRequest :: "string \<Rightarrow> string \<Rightarrow> char list option \<Rightarrow> error + request"
  UnmarshalJSON :: "byteslice \<Rightarrow> Manifest \<times> error option"

text \<open>
  The effects of the code: the requests handed to the HTTP client, in order, and the lines
  written to the logger (verb, URL, and the error or \<open>None\<close> for \<open>OK\<close>).
\<close>

record world =
  trace :: "request list"
  log :: "(string \<times> string \<times> error option) list"

definition MethodGet :: string where "MethodGet = ''GET''"
definition MethodPost :: string where "MethodPost = ''POST''"
definition MethodPut :: string where "MethodPut = ''PUT''"
definition MethodDelete :: string where "MethodDelete = ''DELETE''"
definition StatusOK :: int where "StatusOK = 200"

text \<open>
  \<open>New\<close> keeps the options and the validator and sets the \<open>User-Agent\<close> header. The
  client it builds from the options is the network here, so it is passed in.
\<close>

definition New :: "Opt \<Rightarrow> (Manifest \<Rightarrow> Manifest \<times> error option) \<Rightarrow>
    (nat \<Rightarrow> request \<Rightarrow> error + response) \<Rightarrow> Crawl" where
  "New o' s client =
     \<lparr>opt = o', sc = s, headers = Some [(''User-Agent'', UserAgent o')], hc = client\<rparr>"

section \<open>The fetch engine\<close>

text \<open>\<open>http.Header.Get\<close>: the value stored under the key, or the empty string.\<close>

definition Get :: "header \<Rightarrow> string \<Rightarrow> string" where
  "Get h k = (case map_of h k of None \<Rightarrow> [] | Some v \<Rightarrow> v)"

text \<open>
  \<open>io.ReadAll(io.LimitReader(r, n))\<close>: a limited reader reports EOF as soon as its budget
  is used up (at once when \<open>n \<le> 0\<close>) and never reads the stream's end then; otherwise the
  stream's own end is what ReadAll sees.
\<close>

definition ReadAll_LimitReader :: "stream \<Rightarrow> int \<Rightarrow> char list \<times> error option" where
  "ReadAll_LimitReader r n =
     (if n \<le> 0 then ([], None)
      else if n \<le> int (length (fst r)) then (take (nat n) (fst r), None)
      else (fst r, snd r))"

text \<open>
  doReq. The deferred logging runs on every return path and is the last step here; the
  deferred drain-and-close of the response body has no effect on the values modelled.
\<close>

definition doReq :: "lib \<Rightarrow> Crawl \<Rightarrow> string \<Rightarrow> string \<Rightarrow> byteslice \<Rightarrow> header option \<Rightarrow>
    world \<Rightarrow> (byteslice \<times> bool \<times> error option) \<times> world" where
  "doReq L c method rURL rb hdrs w =
     (let postBody = (if method = MethodPost \<or> method = MethodPut
                      then Some (contents rb) else None);
          (res, w1) =
            (case NewRequest L method rURL postBody of
               Inl err \<Rightarrow> ((NilSlice, True, Some err), w)
             | Inr req0 \<Rightarrow>
                 let req1 = req0\<lparr>Header := (case hdrs of Some h \<Rightarrow> h | None \<Rightarrow> [])\<rparr>;
                     req2 = (if Get (Header req1) ''Content-Type'' = [] \<and>
                                (method = MethodPost \<or> method = MethodPut)
                             then req1\<lparr>Header := Header req1 @
                                    [(''Content-Type'', ''application/json'')]\<rparr>
                             else req1);
                     req3 = (if method = MethodGet \<or> method = MethodDelete
                             then req2\<lparr>reqURL := (reqURL req2)\<lparr>RawQuery := contents rb\<rparr>\<rparr>
                             else req2);
                     w' = w\<lparr>trace := trace w @ [req3]\<rparr>
                 in (case hc c (length (trace w)) req3 of
                       Inl err \<Rightarrow> ((NilSlice, True, Some err), w')
                     | Inr r \<Rightarrow>
                         if StatusCode r \<noteq> StatusOK
                         then ((NilSlice, False, Some (StatusError rURL (StatusCode r))), w')
                         else (case ReadAll_LimitReader (respBody r) (MaxBytes (opt c)) of
                                 (body, Some err) \<Rightarrow> ((NilSlice, True, Some err), w')
                               | (body, None) \<Rightarrow> ((Slice body, False, None), w'))))
      in (res, w1\<lparr>log := log w1 @ [(method, rURL, snd (snd res))]\<rparr>))"

text \<open>
  The retry loop of fetch: \<open>n\<close> is the loop counter, \<open>st\<close> the variables
  \<open>(body, retry, err)\<close> as the previous iteration left them.
\<close>

function fetch_loop :: "lib \<Rightarrow> Crawl \<Rightarrow> string \<Rightarrow> int \<Rightarrow> (byteslice \<times> bool \<times> error option) \<Rightarrow>
    world \<Rightarrow> (byteslice \<times> bool \<times> error option) \<times> world" where
  "fetch_loop L c u n st w =
     (if n < Attempts (opt c)
      then (case doReq L c MethodGet u NilSlice (headers c) w of
              ((body, retry, err), w') \<Rightarrow>
                if err = None \<or> \<not> retry then ((body, retry, err), w')
                else fetch_loop L c u (n + 1) (body, retry, err) w')
      else (st, w))"
  by pat_completeness auto
termination
  by (relation "measure (\<lambda>(L, c, u, n, st, w). nat (Attempts (opt c) - n))") auto

declare fetch_loop.simps [simp del]

definition fetch :: "lib \<Rightarrow> Crawl \<Rightarrow> string \<Rightarrow> world \<Rightarrow> (byteslice \<times> error option) \<times> world" where
  "fetch L c u w =
     (case fetch_loop L c u 0 (NilSlice, False, None) w of
        ((body, retry, err), w') \<Rightarrow>
          (case err of Some e \<Rightarrow> ((NilSlice, Some e), w') | None \<Rightarrow> ((body, None), w')))"

section \<open>Provenance verification\<close>

text \<open>
  \<open>bytes.Split(s, sep)\<close> for a one-byte separator, as the library computes it: the piece
  up to the first separator, then the pieces of what follows it, and the whole remainder
  as the last piece once no separator is left (so a single empty piece for an empty
  input, and one piece more than there are separators).
\<close>

definition newline :: char where "newline = CHR 0x0A"

function Split :: "char list \<Rightarrow> char \<Rightarrow> char list list" where
  "Split s sep =
     (case dropWhile (\<lambda>x. x \<noteq> sep) s of
        [] \<Rightarrow> [s]
      | x # rest \<Rightarrow> takeWhile (\<lambda>x. x \<noteq> sep) s # Split rest sep)"
  by pat_completeness auto
termination
proof (relation "measure (\<lambda>(s, sep). length s)")
  show "wf (measure (\<lambda>(s, sep). length s))" by simp
next
  fix s :: "char list" and sep x rest
  assume "dropWhile (\<lambda>x. x \<noteq> sep) s = x # rest"
  then have "Suc (length rest) = length (dropWhile (\<lambda>x. x \<noteq> sep) s)" by simp
  also have "\<dots> \<le> length s" by (rule length_dropWhile_le)
  finally show "((rest, sep), (s, sep)) \<in> measure (\<lambda>(s, sep). length s)" by simp
qed

declare Split.simps [simp del]

text \<open>
  The range loop of CheckProvenance over the lines still to visit, \<open>n\<close> being the index of
  the first of them; the value is the error CheckProvenance returns.
\<close>

fun scan :: "string \<Rightarrow> nat \<Rightarrow> char list list \<Rightarrow> error option" where
  "scan manifestURL n [] = Some (NotFound manifestURL)"
| "scan manifestURL n (b # bs) =
     (if manifestURL = b then None
      else if n > 100 then Some TooManyLines
      else scan manifestURL (n + 1) bs)"

definition CheckProvenance :: "lib \<Rightarrow> Crawl \<Rightarrow> URLRef \<Rightarrow> string \<Rightarrow> world \<Rightarrow> error option \<times> world" where
  "CheckProvenance L c u manifestURL w =
     (if WellKnown u = [] then (None, w)
      else (case fetch L c (WellKnown u) w of
              ((body, Some err), w') \<Rightarrow> (Some err, w')
            | ((body, None), w') \<Rightarrow> (scan manifestURL 0 (Split (contents body) newline), w')))"

section \<open>Parsing and validating a manifest\<close>

text \<open>The loop of ParseManifest over the projects; \<open>None\<close> when every check passed.\<close>

fun check_projects :: "lib \<Rightarrow> Crawl \<Rightarrow> string \<Rightarrow> Project list \<Rightarrow> world \<Rightarrow> error option \<times> world" where
  "check_projects L c manifestURL [] w = (None, w)"
| "check_projects L c manifestURL (p # ps) w =
     (case CheckProvenance L c (Project.WebpageURL p) manifestURL w of
        (Some err, w1) \<Rightarrow> (Some err, w1)
      | (None, w1) \<Rightarrow>
          (case CheckProvenance L c (RepositoryUrl p) manifestURL w1 of
             (Some err, w2) \<Rightarrow> (Some err, w2)
           | (None, w2) \<Rightarrow> check_projects L c manifestURL ps w2))"

definition ParseManifest :: "lib \<Rightarrow> Crawl \<Rightarrow> byteslice \<Rightarrow> string \<Rightarrow> bool \<Rightarrow> world \<Rightarrow>
    (Manifest \<times> error option) \<times> world" where
  "ParseManifest L c b manifestURL checkProvenance w =
     (case UnmarshalJSON L b of
        (m, Some err) \<Rightarrow> ((m, Some (ParseError err)), w)
      | (m, None) \<Rightarrow>
          (case sc c (m\<lparr>URL := manifestURL, Body := b\<rparr>) of
             (v, Some err) \<Rightarrow> ((v, Some err), w)
           | (v, None) \<Rightarrow>
               if checkProvenance
               then (case CheckProvenance L c (Entity.WebpageURL (Entity v)) manifestURL w of
                       (Some err, w1) \<Rightarrow> ((v, Some err), w1)
                     | (None, w1) \<Rightarrow>
                         (case check_projects L c manifestURL (Projects v) w1 of
                            (Some err, w2) \<Rightarrow> ((v, Some err), w2)
                          | (None, w2) \<Rightarrow> ((v, None), w2)))
               else ((v, None), w)))"

text \<open>The zero value \<open>v1.Manifest{}\<close> that FetchManifest returns with a fetch error.\<close>

definition zero_URLRef :: URLRef where
  "zero_URLRef = \<lparr>Ref = [], WellKnown = []\<rparr>"

definition zero_Manifest :: Manifest where
  "zero_Manifest = \<lparr>URL = [], Body = NilSlice,
     Entity = \<lparr>Entity.WebpageURL = zero_URLRef\<rparr>, Projects = []\<rparr>"

definition FetchManifest :: "lib \<Rightarrow> Crawl \<Rightarrow> string \<Rightarrow> world \<Rightarrow> (Manifest \<times> error option) \<times> world" where
  "FetchManifest L c manifestURL w =
     (case fetch L c manifestURL w of
        ((b, Some err), w') \<Rightarrow> ((zero_Manifest, Some err), w')
      | ((b, None), w') \<Rightarrow> ParseManifest L c b manifestURL True w')"

section \<open>Notions used to state the properties\<close>

text \<open>Lines joined by a separator: the inverse of \<open>Split\<close>.\<close>

fun Join :: "char list list \<Rightarrow> char \<Rightarrow> char list" where
  "Join [] sep = []"
| "Join [l] sep = l"
| "Join (l # l' # ls) sep = l @ sep # Join (l' # ls) sep"

text \<open>
  The request doReq hands to the client, from the one \<open>http.NewRequest\<close> built, and the
  triple doReq returns for the client's answer.
\<close>

definition prepared :: "string \<Rightarrow> byteslice \<Rightarrow> header option \<Rightarrow> request \<Rightarrow> request" where
  "prepared method rb hdrs req0 =
     (let req1 = req0\<lparr>Header := (case hdrs of Some h \<Rightarrow> h | None \<Rightarrow> [])\<rparr>;
          req2 = (if Get (Header req1) ''Content-Type'' = [] \<and>
                     (method = MethodPost \<or> method = MethodPut)
                  then req1\<lparr>Header := Header req1 @ [(''Content-Type'', ''application/json'')]\<rparr>
                  else req1)
      in if method = MethodGet \<or> method = MethodDelete
         then req2\<lparr>reqURL := (reqURL req2)\<lparr>RawQuery := contents rb\<rparr>\<rparr>
         else req2)"

definition answered :: "Crawl \<Rightarrow> string \<Rightarrow> error + response \<Rightarrow> byteslice \<times> bool \<times> error option" where
  "answered c rURL a =
     (case a of
        Inl err \<Rightarrow> (NilSlice, True, Some err)
      | Inr r \<Rightarrow>
          if StatusCode r \<noteq> StatusOK
          then (NilSlice, False, Some (StatusError rURL (StatusCode r)))
          else (case ReadAll_LimitReader (respBody r) (MaxBytes (opt c)) of
                  (body, Some err) \<Rightarrow> (NilSlice, True, Some err)
                | (body, None) \<Rightarrow> (Slice body, False, None)))"

text \<open>
  One attempt of fetch is one call of doReq. \<open>after_attempts k w\<close> is the world after
  \<open>k\<close> attempts in a row from \<open>w\<close>, and \<open>outcome k w\<close> what the attempt made then (the
  attempt number \<open>k + 1\<close>) returns. An outcome is transient when it carries an error and
  asks for a retry; \<open>returned\<close> is what fetch returns for the outcome its loop ended on.
\<close>

definition attempt :: "lib \<Rightarrow> Crawl \<Rightarrow> string \<Rightarrow> world \<Rightarrow>
    (byteslice \<times> bool \<times> error option) \<times> world" where
  "attempt L c u w = doReq L c MethodGet u NilSlice (headers c) w"

fun after_attempts :: "lib \<Rightarrow> Crawl \<Rightarrow> string \<Rightarrow> nat \<Rightarrow> world \<Rightarrow> world" where
  "after_attempts L c u 0 w = w"
| "after_attempts L c u (Suc k) w = after_attempts L c u k (snd (attempt L c u w))"

definition outcome :: "lib \<Rightarrow> Crawl \<Rightarrow> string \<Rightarrow> nat \<Rightarrow> world \<Rightarrow> byteslice \<times> bool \<times> error option" where
  "outcome L c u k w = fst (attempt L c u (after_attempts L c u k w))"

definition transient :: "byteslice \<times> bool \<times> error option \<Rightarrow> bool" where
  "transient r = (snd (snd r) \<noteq> None \<and> fst (snd r))"

definition returned :: "byteslice \<times> bool \<times> error option \<Rightarrow> byteslice \<times> error option" where
  "returned r = (case snd (snd r) of Some e \<Rightarrow> (NilSlice, Some e) | None \<Rightarrow> (fst r, None))"

text \<open>
  The URL references of a manifest in document order (the entity's webpage, then for each
  project its webpage and its repository), and checks run one after the other on a list of
  references, each in the world the previous one left, stopping at the first error.
\<close>

definition prov_urls :: "Manifest \<Rightarrow> URLRef list" where
  "prov_urls m = Entity.WebpageURL (Entity m) #
     concat (map (\<lambda>p. [Project.WebpageURL p, RepositoryUrl p]) (Projects m))"

fun run_checks :: "lib \<Rightarrow> Crawl \<Rightarrow> string \<Rightarrow> URLRef list \<Rightarrow> world \<Rightarrow> error option \<times> world" where
  "run_checks L c manifestURL [] w = (None, w)"
| "run_checks L c manifestURL (u # us) w =
     (case CheckProvenance L c u manifestURL w of
        (Some err, w') \<Rightarrow> (Some err, w')
      | (None, w') \<Rightarrow> run_checks L c manifestURL us w')"

section \<open>A sample environment\<close>

text \<open>
  Stand-ins for the parts outside the code, used to run it on concrete inputs: a URL parser
  that cuts the query off at the first question mark and rejects the empty URL, a decoder
  given by a table of documents, a validator that accepts everything, a network that
  serves a table of pages by path (404 elsewhere), and one whose first \<open>k\<close> requests time
  out.
\<close>

definition sample_NewRequest :: "string \<Rightarrow> string \<Rightarrow> char list option \<Rightarrow> error + request" where
  "sample_NewRequest method u pb =
     (if u = [] then Inl (ExtError ''empty url'')
      else Inr \<lparr>Method = method,
                reqURL = \<lparr>Scheme = [], Host = [], Path = takeWhile (\<lambda>x. x \<noteq> CHR ''?'') u,
                          RawQuery = drop 1 (dropWhile (\<lambda>x. x \<noteq> CHR ''?'') u), Fragment = []\<rparr>,
                Header = [], reqBody = pb\<rparr>)"

definition sample_decode :: "(char list \<times> Manifest) list \<Rightarrow> byteslice \<Rightarrow> Manifest \<times> error option" where
  "sample_decode docs b =
     (case map_of docs (contents b) of
        Some m \<Rightarrow> (m, None)
      | None \<Rightarrow> (zero_Manifest, Some (ExtError ''unexpected end of JSON input'')))"

definition sample_lib :: "(char list \<times> Manifest) list \<Rightarrow> lib" where
  "sample_lib docs = \<lparr>NewRequest = sample_NewRequest, UnmarshalJSON = sample_decode docs\<rparr>"

definition accept :: "Manifest \<Rightarrow> Manifest \<times> error option" where
  "accept m = (m, None)"

definition site :: "(string \<times> int \<times> stream) list \<Rightarrow> nat \<Rightarrow> request \<Rightarrow> error + response" where
  "site pages i rq =
     (case map_of pages (Path (reqURL rq)) of
        Some (code, s) \<Rightarrow> Inr \<lparr>StatusCode = code, respBody = s\<rparr>
      | None \<Rightarrow> Inr \<lparr>StatusCode = 404, respBody = ([], None)\<rparr>)"

definition flaky :: "nat \<Rightarrow> (nat \<Rightarrow> request \<Rightarrow> error + response) \<Rightarrow> nat \<Rightarrow> request \<Rightarrow>
    error + response" where
  "flaky k net i rq = (if i < k then Inl (ExtError ''timeout'') else net i rq)"

definition sample_opt :: "int \<Rightarrow> int \<Rightarrow> Opt" where
  "sample_opt a mb =
     \<lparr>UserAgent = ''portal'', MaxHostConns = 10, ReqTimeout = 5, Attempts = a, MaxBytes = mb\<rparr>"

definition sample_crawl :: "int \<Rightarrow> int \<Rightarrow> (nat \<Rightarrow> request \<Rightarrow> error + response) \<Rightarrow> Crawl" where
  "sample_crawl a mb net = New (sample_opt a mb) accept net"

definition empty_world :: world where
  "empty_world = \<lparr>trace = [], log = []\<rparr>"

definition wk :: "string \<Rightarrow> URLRef" where
  "wk l = \<lparr>Ref = ''https://a.example'', WellKnown = l\<rparr>"


definition funding_url :: string where
  "funding_url = ''https://a.example/funding.json''"

definition funding_site :: "nat \<Rightarrow> request \<Rightarrow> error + response" where
  "funding_site = site [(funding_url, 200, (''{}'', None))]"

text \<open>The request the sample parser builds for a GET of path \<open>p\<close> with query \<open>q\<close>.\<close>

definition sample_request :: "string \<Rightarrow> string \<Rightarrow> request" where
  "sample_request p q =
     \<lparr>Method = ''GET'',
      reqURL = \<lparr>Scheme = [], Host = [], Path = p, RawQuery = q, Fragment = []\<rparr>,
      Header = [], reqBody = None\<rparr>"

text \<open>A disclosure list served at \<open>list_url\<close> with the given lines.\<close>

definition list_url :: string where
  "list_url = ''https://a.example/.well-known/funding-manifest-urls''"

definition list_site :: "char list list \<Rightarrow> nat \<Rightarrow> request \<Rightarrow> error + response" where
  "list_site ls = site [(list_url, 200, (Join ls newline, None))]"

text \<open>A validator that rejects a manifest without projects.\<close>

definition require_projects :: "Manifest \<Rightarrow> Manifest \<times> error option" where
  "require_projects m =
     (if Projects m = [] then (m, Some (ExtError ''projects: required'')) else (m, None))"

text \<open>
  A manifest whose entity publishes no disclosure list and whose two projects do, and the
  same manifest as ParseManifest stamps it for \<open>funding_url\<close> and the body \<open>{}\<close>.
\<close>

definition sample_manifest :: Manifest where
  "sample_manifest =
     \<lparr>URL = [], Body = NilSlice,
      Entity = \<lparr>Entity.WebpageURL = \<lparr>Ref = ''https://a.example'', WellKnown = []\<rparr>\<rparr>,
      Projects =
        [\<lparr>Project.WebpageURL = \<lparr>Ref = ''https://p1.example'', WellKnown = list_url\<rparr>,
          RepositoryUrl = \<lparr>Ref = ''https://git.example/p1'', WellKnown = ''https://git.example/p1/list''\<rparr>\<rparr>,
         \<lparr>Project.WebpageURL = \<lparr>Ref = ''https://p2.example'', WellKnown = ''https://p2.example/list''\<rparr>,
          RepositoryUrl = \<lparr>Ref = ''https://git.example/p2'', WellKnown = ''https://git.example/p2/list''\<rparr>\<rparr>]\<rparr>"

definition stamped :: Manifest where
  "stamped = sample_manifest\<lparr>URL := funding_url, Body := Slice ''{}''\<rparr>"

section \<open>Lines and the scan\<close>

lemma Split_Nil: "Split [] sep = [[]]"
  by (simp add: Split.simps)

lemma Split_Cons:
  "Split (x # xs) sep =
     (if x = sep then [] # Split xs sep
      else (x # hd (Split xs sep)) # tl (Split xs sep))"
proof (cases "x = sep")
  case True
  then show ?thesis by (subst Split.simps) simp
next
  case False
  show ?thesis
  proof (cases "dropWhile (\<lambda>x. x \<noteq> sep) xs")
    case Nil
    have "Split xs sep = [xs]"
      by (subst Split.simps) (simp only: Nil list.case)
    moreover have "Split (x # xs) sep = [x # xs]"
      using False by (subst Split.simps) (simp add: Nil del: dropWhile_eq_Nil_conv)
    ultimately show ?thesis using False by simp
  next
    case (Cons y rest)
    have "Split xs sep = takeWhile (\<lambda>x. x \<noteq> sep) xs # Split rest sep"
      by (subst Split.simps) (simp only: Cons list.case)
    moreover have
      "Split (x # xs) sep = (x # takeWhile (\<lambda>x. x \<noteq> sep) xs) # Split rest sep"
      using False by (subst Split.simps) (simp add: Cons)
    ultimately show ?thesis using False by simp
  qed
qed

lemma Split_nonempty: "Split s sep \<noteq> []"
  by (subst Split.simps) (simp split: list.split)

lemma Join_Split: "Join (Split s sep) sep = s"
proof (induction s)
  case Nil
  then show ?case by (simp add: Split_Nil)
next
  case (Cons x xs)
  obtain l ls where sp: "Split xs sep = l # ls"
    using Split_nonempty [of xs sep] by (cases "Split xs sep") auto
  show ?case using Cons sp by (cases ls) (auto simp: Split_Cons)
qed

lemma Split_no_sep: "l \<in> set (Split s sep) \<Longrightarrow> sep \<notin> set l"
proof (induction s arbitrary: l)
  case Nil
  then show ?case by (simp add: Split_Nil)
next
  case (Cons x xs)
  obtain h t where sp: "Split xs sep = h # t"
    using Split_nonempty [of xs sep] by (cases "Split xs sep") auto
  show ?case using Cons sp by (auto simp: Split_Cons split: if_splits)
qed

lemma Split_Join:
  "ls \<noteq> [] \<Longrightarrow> \<forall>l\<in>set ls. sep \<notin> set l \<Longrightarrow> Split (Join ls sep) sep = ls"
proof (induction ls sep rule: Join.induct)
  case (1 sep)
  then show ?case by simp
next
  case (2 l sep)
  then show ?case by (induction l) (auto simp: Split_Nil Split_Cons)
next
  case (3 l l' ls sep)
  then have ih: "Split (Join (l' # ls) sep) sep = l' # ls" by simp
  from 3(3) have "sep \<notin> set l" by simp
  then show ?case using ih by (induction l) (auto simp: Split_Cons)
qed

lemma scan_char:
  "n \<le> 101 \<Longrightarrow> scan m n ls =
     (if m \<in> set (take (102 - n) ls) then None
      else if 102 - n \<le> length ls then Some TooManyLines
      else Some (NotFound m))"
proof (induction ls arbitrary: n)
  case Nil
  then show ?case by simp
next
  case (Cons b bs)
  show ?case
  proof (cases "m = b")
    case True
    with Cons.prems show ?thesis by (cases "102 - n") auto
  next
    case False
    show ?thesis
    proof (cases "n > 100")
      case True
      with Cons.prems have "n = 101" by simp
      with False show ?thesis by simp
    next
      case le: False
      then have "Suc n \<le> 101" by simp
      from Cons.IH [OF this] have ih: "scan m (Suc n) bs =
        (if m \<in> set (take (101 - n) bs) then None
         else if 101 - n \<le> length bs then Some TooManyLines else Some (NotFound m))"
        by (simp add: numeral_eq_Suc)
      have "102 - n = Suc (101 - n)" using le by simp
      then have t: "take (102 - n) (b # bs) = b # take (101 - n) bs"
        by simp
      have l: "(102 - n \<le> length (b # bs)) = (101 - n \<le> length bs)"
        using le by auto
      show ?thesis using False le ih unfolding t l by simp
    qed
  qed
qed


section \<open>One request\<close>

lemma doReq_Inl:
  "NewRequest L method rURL
     (if method = MethodPost \<or> method = MethodPut then Some (contents rb) else None) = Inl err \<Longrightarrow>
   doReq L c method rURL rb hdrs w =
     ((NilSlice, True, Some err), w\<lparr>log := log w @ [(method, rURL, Some err)]\<rparr>)"
  unfolding doReq_def Let_def by simp

lemma doReq_Inr:
  assumes "NewRequest L method rURL
     (if method = MethodPost \<or> method = MethodPut then Some (contents rb) else None) = Inr req0"
  shows "doReq L c method rURL rb hdrs w =
     (answered c rURL (hc c (length (trace w)) (prepared method rb hdrs req0)),
      w\<lparr>trace := trace w @ [prepared method rb hdrs req0],
        log := log w @ [(method, rURL,
          snd (snd (answered c rURL (hc c (length (trace w)) (prepared method rb hdrs req0)))))]\<rparr>)"
proof -
  define rq where "rq = prepared method rb hdrs req0"
  define a where "a = hc c (length (trace w)) rq"
  have d: "doReq L c method rURL rb hdrs w =
     (case (case a of
               Inl err \<Rightarrow> ((NilSlice, True, Some err), w\<lparr>trace := trace w @ [rq]\<rparr>)
             | Inr r \<Rightarrow>
                 if StatusCode r \<noteq> StatusOK
                 then ((NilSlice, False, Some (StatusError rURL (StatusCode r))),
                       w\<lparr>trace := trace w @ [rq]\<rparr>)
                 else (case ReadAll_LimitReader (respBody r) (MaxBytes (opt c)) of
                         (body, Some err) \<Rightarrow> ((NilSlice, True, Some err), w\<lparr>trace := trace w @ [rq]\<rparr>)
                       | (body, None) \<Rightarrow> ((Slice body, False, None), w\<lparr>trace := trace w @ [rq]\<rparr>)))
      of (res, w1) \<Rightarrow> (res, w1\<lparr>log := log w1 @ [(method, rURL, snd (snd res))]\<rparr>))"
    unfolding doReq_def Let_def assms sum.case rq_def a_def prepared_def Let_def ..
  show ?thesis
    unfolding d rq_def [symmetric] a_def [symmetric]
    by (cases a) (simp_all add: answered_def split: prod.split option.split)
qed


lemma doReq_log:
  "log (snd (doReq L c method rURL rb hdrs w)) =
     log w @ [(method, rURL, snd (snd (fst (doReq L c method rURL rb hdrs w))))]"
proof (cases "NewRequest L method rURL
     (if method = MethodPost \<or> method = MethodPut then Some (contents rb) else None)")
  case (Inl err)
  show ?thesis by (simp add: doReq_Inl [OF Inl])
next
  case (Inr req0)
  show ?thesis by (simp add: doReq_Inr [OF Inr])
qed

section \<open>The retry loop\<close>

lemma fetch_loop_step:
  "fetch_loop L c u n st w =
     (if n < Attempts (opt c)
      then (if \<not> transient (fst (attempt L c u w)) then attempt L c u w
            else fetch_loop L c u (n + 1) (fst (attempt L c u w)) (snd (attempt L c u w)))
      else (st, w))"
  by (subst fetch_loop.simps) (auto simp: attempt_def transient_def split: prod.splits)

lemma after_attempts_Suc:
  "after_attempts L c u (Suc k) w = snd (attempt L c u (after_attempts L c u k w))"
  by (induction k arbitrary: w) simp_all

lemma outcome_shift:
  "outcome L c u k (snd (attempt L c u w)) = outcome L c u (Suc k) w"
  by (simp add: outcome_def)

lemma fetch_loop_stop:
  "n + int k < Attempts (opt c) \<Longrightarrow> \<forall>i<k. transient (outcome L c u i w) \<Longrightarrow>
   \<not> transient (outcome L c u k w) \<Longrightarrow>
   fetch_loop L c u n st w = (outcome L c u k w, after_attempts L c u (Suc k) w)"
proof (induction k arbitrary: n st w)
  case 0
  then show ?case
    by (subst fetch_loop_step) (simp add: outcome_def)
next
  case (Suc k)
  let ?w = "snd (attempt L c u w)"
  from Suc.prems(2) have t0: "transient (fst (attempt L c u w))"
    by (auto simp: outcome_def dest: spec [of _ 0])
  have a: "(n + 1) + int k < Attempts (opt c)" using Suc.prems(1) by simp
  have b: "\<forall>i<k. transient (outcome L c u i ?w)"
    using Suc.prems(2) by (auto simp: outcome_shift)
  have d: "\<not> transient (outcome L c u k ?w)"
    using Suc.prems(3) by (simp add: outcome_shift)
  have n: "n < Attempts (opt c)" using Suc.prems(1) by simp
  show ?case
    by (subst fetch_loop_step) (simp add: n t0 Suc.IH [OF a b d] outcome_shift)
qed

lemma fetch_loop_exhaust:
  "n + int k = Attempts (opt c) \<Longrightarrow> \<forall>i<k. transient (outcome L c u i w) \<Longrightarrow>
   fetch_loop L c u n st w =
     ((if k = 0 then st else outcome L c u (k - 1) w), after_attempts L c u k w)"
proof (induction k arbitrary: n st w)
  case 0
  then show ?case by (subst fetch_loop_step) simp
next
  case (Suc k)
  let ?w = "snd (attempt L c u w)"
  from Suc.prems(2) have t0: "transient (fst (attempt L c u w))"
    by (auto simp: outcome_def dest: spec [of _ 0])
  have a: "(n + 1) + int k = Attempts (opt c)" using Suc.prems(1) by simp
  have b: "\<forall>i<k. transient (outcome L c u i ?w)"
    using Suc.prems(2) by (auto simp: outcome_shift)
  have n: "n < Attempts (opt c)" using Suc.prems(1) by simp
  show ?case
  proof (cases k)
    case 0
    show ?thesis
      by (subst fetch_loop_step) (simp add: n t0 Suc.IH [OF a b] 0 outcome_def)
  next
    case (Suc j)
    show ?thesis
      by (subst fetch_loop_step) (simp add: n t0 Suc.IH [OF a b] Suc outcome_shift)
  qed
qed



lemma after_attempts_log:
  "length (log (after_attempts L c u k w)) = length (log w) + k"
  by (induction k arbitrary: w) (simp_all add: attempt_def doReq_log)

lemma prepared_get:
  "prepared MethodGet NilSlice hdrs req0 =
     req0\<lparr>Header := (case hdrs of Some h \<Rightarrow> h | None \<Rightarrow> []),
          reqURL := (reqURL req0)\<lparr>RawQuery := []\<rparr>\<rparr>"
  by (simp add: prepared_def MethodGet_def MethodPost_def MethodPut_def Let_def)

lemma attempt_Inl:
  "NewRequest L MethodGet u None = Inl err \<Longrightarrow>
   attempt L c u w = ((NilSlice, True, Some err), w\<lparr>log := log w @ [(MethodGet, u, Some err)]\<rparr>)"
  unfolding attempt_def
  by (rule doReq_Inl) (simp add: MethodGet_def MethodPost_def MethodPut_def)

lemma attempt_Inr:
  assumes "NewRequest L MethodGet u None = Inr req0"
  shows "attempt L c u w =
     (answered c u (hc c (length (trace w)) (prepared MethodGet NilSlice (headers c) req0)),
      w\<lparr>trace := trace w @ [prepared MethodGet NilSlice (headers c) req0],
        log := log w @ [(MethodGet, u,
          snd (snd (answered c u (hc c (length (trace w))
            (prepared MethodGet NilSlice (headers c) req0)))))]\<rparr>)"
  unfolding attempt_def
  by (rule doReq_Inr) (simp add: MethodGet_def MethodPost_def MethodPut_def assms [unfolded MethodGet_def])

lemma attempt_trace:
  "\<exists>rs. trace (snd (attempt L c u w)) = trace w @ rs \<and> (\<forall>r\<in>set rs. RawQuery (reqURL r) = [])"
proof (cases "NewRequest L MethodGet u None")
  case (Inl err)
  show ?thesis by (simp add: attempt_Inl [OF Inl])
next
  case (Inr req0)
  show ?thesis by (simp add: attempt_Inr [OF Inr] prepared_get)
qed

lemma after_attempts_trace:
  "\<exists>rs. trace (after_attempts L c u k w) = trace w @ rs \<and>
     (\<forall>r\<in>set rs. RawQuery (reqURL r) = [])"
proof (induction k arbitrary: w)
  case 0
  show ?case by simp
next
  case (Suc k)
  obtain rs where rs: "trace (snd (attempt L c u w)) = trace w @ rs"
      "\<forall>r\<in>set rs. RawQuery (reqURL r) = []"
    using attempt_trace by blast
  obtain rs' where rs': "trace (after_attempts L c u k (snd (attempt L c u w))) =
      trace (snd (attempt L c u w)) @ rs'" "\<forall>r\<in>set rs'. RawQuery (reqURL r) = []"
    using Suc.IH by blast
  have "trace (after_attempts L c u (Suc k) w) = trace w @ (rs @ rs')"
    using rs rs' by simp
  moreover have "\<forall>r\<in>set (rs @ rs'). RawQuery (reqURL r) = []"
    using rs rs' by auto
  ultimately show ?case by blast
qed

lemma fetch_loop_after:
  "\<exists>k. snd (fetch_loop L c u n st w) = after_attempts L c u k w"
proof (induction "nat (Attempts (opt c) - n)" arbitrary: n st w)
  case 0
  then have "\<not> n < Attempts (opt c)" by simp
  then have "fetch_loop L c u n st w = (st, w)" by (subst fetch_loop_step) simp
  then have "snd (fetch_loop L c u n st w) = after_attempts L c u 0 w" by simp
  then show ?case by blast
next
  case (Suc d)
  then have n: "n < Attempts (opt c)" by simp
  show ?case
  proof (cases "transient (fst (attempt L c u w))")
    case False
    then have "fetch_loop L c u n st w = attempt L c u w"
      using n by (subst fetch_loop_step) simp
    then have "snd (fetch_loop L c u n st w) = after_attempts L c u (Suc 0) w" by simp
    then show ?thesis by blast
  next
    case True
    have d: "d = nat (Attempts (opt c) - (n + 1))" using Suc.hyps(2) by simp
    obtain k where "snd (fetch_loop L c u (n + 1) (fst (attempt L c u w)) (snd (attempt L c u w)))
        = after_attempts L c u k (snd (attempt L c u w))"
      using Suc.hyps(1) [OF d] by blast
    then have "snd (fetch_loop L c u n st w) = after_attempts L c u (Suc k) w"
      using n True by (subst fetch_loop_step) simp
    then show ?thesis by blast
  qed
qed

lemma fetch_world:
  "snd (fetch L c u w) = snd (fetch_loop L c u 0 (NilSlice, False, None) w)"
  by (simp add: fetch_def split: prod.split option.split)

lemma fetch_returned:
  "fetch_loop L c u 0 (NilSlice, False, None) w = (r, w') \<Longrightarrow> fetch L c u w = (returned r, w')"
  by (cases r) (simp add: fetch_def returned_def split: option.split)

lemma answered_status:
  "StatusCode r \<noteq> 200 \<Longrightarrow>
   answered c u (Inr r) = (NilSlice, False, Some (StatusError u (StatusCode r)))"
  by (simp add: answered_def StatusOK_def)

lemma fetch_stop:
  assumes "int k < Attempts (opt c)" and "\<forall>i<k. transient (outcome L c u i w)"
    and "\<not> transient (outcome L c u k w)"
  shows "fetch L c u w = (returned (outcome L c u k w), after_attempts L c u (Suc k) w)"
proof -
  have "0 + int k < Attempts (opt c)" using assms(1) by simp
  from fetch_loop_stop [OF this assms(2,3)] show ?thesis by (rule fetch_returned)
qed

lemma fetch_exhaust:
  assumes "int k = Attempts (opt c)" and "0 < k" and "\<forall>i<k. transient (outcome L c u i w)"
  shows "fetch L c u w = (returned (outcome L c u (k - 1) w), after_attempts L c u k w)"
proof -
  have "0 + int k = Attempts (opt c)" using assms(1) by simp
  from fetch_loop_exhaust [OF this assms(3), of "(NilSlice, False, None)"] assms(2)
  have "fetch_loop L c u 0 (NilSlice, False, None) w =
      (outcome L c u (k - 1) w, after_attempts L c u k w)" by simp
  then show ?thesis by (rule fetch_returned)
qed

section \<open>Provenance checks in a row\<close>

lemma CheckProvenance_fetched:
  "WellKnown u \<noteq> [] \<Longrightarrow> fetch L c (WellKnown u) w = ((body, None), w') \<Longrightarrow>
   CheckProvenance L c u manifestURL w = (scan manifestURL 0 (Split (contents body) newline), w')"
  by (simp add: CheckProvenance_def)

lemma scan_from_start:
  "scan m 0 ls =
     (if m \<in> set (take 102 ls) then None
      else if 102 \<le> length ls then Some TooManyLines
      else Some (NotFound m))"
  using scan_char [of 0 m ls] by simp

lemma run_checks_append:
  "run_checks L c m (pre @ us) w =
     (case run_checks L c m pre w of
        (Some e, w1) \<Rightarrow> (Some e, w1)
      | (None, w1) \<Rightarrow> run_checks L c m us w1)"
  by (induction pre arbitrary: w) (auto split: prod.splits option.splits)

lemma check_projects_run:
  "check_projects L c m ps w =
     run_checks L c m (concat (map (\<lambda>p. [Project.WebpageURL p, RepositoryUrl p]) ps)) w"
  by (induction ps arbitrary: w) (auto split: prod.splits option.splits)

lemma ParseManifest_run_checks:
  assumes "UnmarshalJSON L b = (m, None)" and "sc c (m\<lparr>URL := manifestURL, Body := b\<rparr>) = (v, None)"
  shows "ParseManifest L c b manifestURL True w =
     ((v, fst (run_checks L c manifestURL (prov_urls v) w)),
      snd (run_checks L c manifestURL (prov_urls v) w))"
  by (simp add: ParseManifest_def assms prov_urls_def check_projects_run
      split: prod.splits option.splits)

section \<open>Properties\<close>

text \<open>
  C1. The bound is not at 100 lines: the guard \<open>n > 100\<close> tests the index of the line
  just compared, so after 101 lines without a match the scan goes on, and the 102nd line
  is still compared. Here a list of 101 lines that do not match followed by the manifest
  URL is accepted.
\<close>

theorem CheckProvenance_line_cap_counterexample:
  "take 101 (Split (Join (replicate 101 ''x'' @ [funding_url]) newline) newline) =
     replicate 101 ''x'' \<and>
   Split (Join (replicate 101 ''x'' @ [funding_url]) newline) newline ! 101 = funding_url \<and>
   fst (fetch (sample_lib [])
     (sample_crawl 1 10000 (list_site (replicate 101 ''x'' @ [funding_url]))) list_url empty_world) =
     (Slice (Join (replicate 101 ''x'' @ [funding_url]) newline), None) \<and>
   fst (CheckProvenance (sample_lib [])
     (sample_crawl 1 10000 (list_site (replicate 101 ''x'' @ [funding_url]))) (wk list_url)
     funding_url empty_world) = None"
  by code_simp

text \<open>
  C1, as the code has it. When the disclosure list was fetched, CheckProvenance succeeds
  if one of the first 102 lines is the manifest URL; failing that, it returns the
  too-many-lines error if the list has at least 102 lines, and the not-found error
  otherwise. Lines after the 102nd never matter. So a list of 102 lines without a match
  gives too-many-lines, and one of 101 gives not-found.
\<close>

theorem CheckProvenance_line_cap:
  assumes "WellKnown u \<noteq> []" and "fetch L c (WellKnown u) w = ((body, None), w')"
  shows "fst (CheckProvenance L c u manifestURL w) =
     (if manifestURL \<in> set (take 102 (Split (contents body) newline)) then None
      else if 102 \<le> length (Split (contents body) newline) then Some TooManyLines
      else Some (NotFound manifestURL))"
  by (simp only: CheckProvenance_fetched [OF assms] fst_conv scan_from_start)

theorem CheckProvenance_line_cap_witness:
  "WellKnown (wk list_url) \<noteq> [] \<and>
   fst (fetch (sample_lib []) (sample_crawl 1 10000 (list_site (replicate 102 ''x'')))
     (WellKnown (wk list_url)) empty_world) = (Slice (Join (replicate 102 ''x'') newline), None) \<and>
   Split (Join (replicate 102 ''x'') newline) newline = replicate 102 ''x'' \<and>
   fst (CheckProvenance (sample_lib []) (sample_crawl 1 10000 (list_site (replicate 102 ''x'')))
     (wk list_url) funding_url empty_world) = Some TooManyLines"
proof -
  let ?L = "sample_lib []"
  let ?c = "sample_crawl 1 10000 (list_site (replicate 102 ''x''))"
  let ?b = "Join (replicate 102 ''x'') newline"
  have h1: "WellKnown (wk list_url) \<noteq> []" by code_simp
  have f: "fst (fetch ?L ?c (WellKnown (wk list_url)) empty_world) = (Slice ?b, None)"
    by code_simp
  then have h2: "fetch ?L ?c (WellKnown (wk list_url)) empty_world =
      ((Slice ?b, None), snd (fetch ?L ?c (WellKnown (wk list_url)) empty_world))"
    by (simp add: prod_eq_iff)
  have s: "Split ?b newline = replicate 102 ''x''" by code_simp
  have n: "funding_url \<noteq> ''x''" by code_simp
  from CheckProvenance_line_cap [OF h1 h2, of funding_url]
  have "fst (CheckProvenance ?L ?c (wk list_url) funding_url empty_world) = Some TooManyLines"
    using n by (simp add: s)
  with h1 f s show ?thesis by blast
qed

text \<open>
  C2. When the disclosure list was fetched, its lines are the pieces of the body between
  newline characters (joined by newlines they give the body back, and none contains a
  newline). CheckProvenance leaves the world as fetch left it. It succeeds only if some
  line is equal to the manifest URL, and it does succeed when such a line comes after at
  most 101 others, whatever follows it. When the list has at most 100 lines and none is
  equal to the manifest URL, the error is the not-found error naming the manifest URL.
  Equality is equality of the byte sequences: a trailing space makes a line different.
\<close>

theorem CheckProvenance_exact_match:
  assumes "WellKnown u \<noteq> []" and "fetch L c (WellKnown u) w = ((body, None), w')"
  shows "Join (Split (contents body) newline) newline = contents body \<and>
     (\<forall>l\<in>set (Split (contents body) newline). newline \<notin> set l) \<and>
     snd (CheckProvenance L c u manifestURL w) = w' \<and>
     (fst (CheckProvenance L c u manifestURL w) = None \<longrightarrow>
        manifestURL \<in> set (Split (contents body) newline)) \<and>
     (Split (contents body) newline = pre @ manifestURL # post \<and> length pre \<le> 101 \<longrightarrow>
        fst (CheckProvenance L c u manifestURL w) = None) \<and>
     (length (Split (contents body) newline) \<le> 100 \<and>
      manifestURL \<notin> set (Split (contents body) newline) \<longrightarrow>
        fst (CheckProvenance L c u manifestURL w) = Some (NotFound manifestURL))"
proof -
  let ?ls = "Split (contents body) newline"
  have cp: "CheckProvenance L c u manifestURL w = (scan manifestURL 0 ?ls, w')"
    by (rule CheckProvenance_fetched [OF assms])
  have a: "Join ?ls newline = contents body" by (rule Join_Split)
  have b: "\<forall>l\<in>set ?ls. newline \<notin> set l" using Split_no_sep by blast
  have d: "scan manifestURL 0 ?ls = None \<longrightarrow> manifestURL \<in> set ?ls"
    by (auto simp: scan_from_start dest: in_set_takeD split: if_splits)
  have e: "?ls = pre @ manifestURL # post \<and> length pre \<le> 101 \<longrightarrow>
      scan manifestURL 0 ?ls = None"
  proof
    assume h: "?ls = pre @ manifestURL # post \<and> length pre \<le> 101"
    then have "take 102 ?ls = pre @ manifestURL # take (101 - length pre) post"
      by (simp add: numeral_eq_Suc Suc_diff_le)
    then have "manifestURL \<in> set (take 102 ?ls)" by simp
    then show "scan manifestURL 0 ?ls = None" by (simp add: scan_from_start)
  qed
  have f: "length ?ls \<le> 100 \<and> manifestURL \<notin> set ?ls \<longrightarrow>
      scan manifestURL 0 ?ls = Some (NotFound manifestURL)"
    by (auto simp: scan_from_start dest: in_set_takeD)
  show ?thesis unfolding cp fst_conv snd_conv using a b d e f by blast
qed

theorem CheckProvenance_exact_match_witness:
  "WellKnown (wk list_url) \<noteq> [] \<and>
   fst (fetch (sample_lib []) (sample_crawl 1 10000 (list_site [funding_url, ''https://other'']))
     (WellKnown (wk list_url)) empty_world) =
     (Slice (Join [funding_url, ''https://other''] newline), None) \<and>
   Split (Join [funding_url, ''https://other''] newline) newline =
     [funding_url, ''https://other''] \<and>
   fst (CheckProvenance (sample_lib [])
     (sample_crawl 1 10000 (list_site [funding_url, ''https://other''])) (wk list_url)
     funding_url empty_world) = None \<and>
   fst (CheckProvenance (sample_lib [])
     (sample_crawl 1 10000 (list_site [funding_url, ''https://other''])) (wk list_url)
     (funding_url @ '' '') empty_world) = Some (NotFound (funding_url @ '' ''))"
proof -
  let ?L = "sample_lib []"
  let ?c = "sample_crawl 1 10000 (list_site [funding_url, ''https://other''])"
  let ?b = "Join [funding_url, ''https://other''] newline"
  have h1: "WellKnown (wk list_url) \<noteq> []" by code_simp
  have f: "fst (fetch ?L ?c (WellKnown (wk list_url)) empty_world) = (Slice ?b, None)"
    by code_simp
  then have h2: "fetch ?L ?c (WellKnown (wk list_url)) empty_world =
      ((Slice ?b, None), snd (fetch ?L ?c (WellKnown (wk list_url)) empty_world))"
    by (simp add: prod_eq_iff)
  have s: "Split ?b newline = [funding_url, ''https://other'']" by code_simp
  have n: "funding_url @ '' '' \<notin> set [funding_url, ''https://other'']" by code_simp
  have p: "[funding_url, ''https://other''] = [] @ funding_url # [''https://other''] \<and>
      length ([] :: char list list) \<le> 101"
    by simp
  have q: "length [funding_url, ''https://other''] \<le> 100 \<and>
      funding_url @ '' '' \<notin> set [funding_url, ''https://other'']"
    using n by simp
  note t1 = CheckProvenance_exact_match [OF h1 h2, of funding_url "[]" "[''https://other'']",
      unfolded contents.simps s]
  note t2 = CheckProvenance_exact_match [OF h1 h2, of "funding_url @ '' ''",
      unfolded contents.simps s]
  from t1 p have a: "fst (CheckProvenance ?L ?c (wk list_url) funding_url empty_world) = None"
    by blast
  from t2 q have b: "fst (CheckProvenance ?L ?c (wk list_url) (funding_url @ '' '') empty_world) =
      Some (NotFound (funding_url @ '' ''))"
    by blast
  from h1 f s a b show ?thesis by blast
qed

text \<open>
  C3. When decoding and validation succeeded and provenance is requested, ParseManifest
  returns what running the checks one after the other over \<open>prov_urls\<close> gives: entity
  webpage, then per project webpage and repository, each check in the world the one before
  left. If the checks before some reference pass and the check of that reference fails,
  ParseManifest returns that error with the world exactly as the failing check left it:
  nothing is fetched or logged for the references after it.
\<close>

theorem provenance_in_document_order:
  assumes "UnmarshalJSON L b = (m, None)" and "sc c (m\<lparr>URL := manifestURL, Body := b\<rparr>) = (v, None)"
  shows "ParseManifest L c b manifestURL True w =
       ((v, fst (run_checks L c manifestURL (prov_urls v) w)),
        snd (run_checks L c manifestURL (prov_urls v) w)) \<and>
     (prov_urls v = pre @ u # post \<and> run_checks L c manifestURL pre w = (None, w1) \<and>
      CheckProvenance L c u manifestURL w1 = (Some e, w2) \<longrightarrow>
        ParseManifest L c b manifestURL True w = ((v, Some e), w2))"
proof -
  note p = ParseManifest_run_checks [OF assms, of w]
  have "ParseManifest L c b manifestURL True w = ((v, Some e), w2)"
    if "prov_urls v = pre @ u # post" "run_checks L c manifestURL pre w = (None, w1)"
      "CheckProvenance L c u manifestURL w1 = (Some e, w2)"
  proof -
    have "run_checks L c manifestURL (prov_urls v) w = (Some e, w2)"
      unfolding that(1) by (simp add: run_checks_append that(2,3))
    then show ?thesis by (simp add: p)
  qed
  with p show ?thesis by blast
qed

theorem provenance_in_document_order_witness:
  "UnmarshalJSON (sample_lib [(''{}'', sample_manifest)]) (Slice ''{}'') = (sample_manifest, None) \<and>
   prov_urls stamped =
     [\<lparr>Ref = ''https://a.example'', WellKnown = []\<rparr>,
      \<lparr>Ref = ''https://p1.example'', WellKnown = list_url\<rparr>,
      \<lparr>Ref = ''https://git.example/p1'', WellKnown = ''https://git.example/p1/list''\<rparr>,
      \<lparr>Ref = ''https://p2.example'', WellKnown = ''https://p2.example/list''\<rparr>,
      \<lparr>Ref = ''https://git.example/p2'', WellKnown = ''https://git.example/p2/list''\<rparr>] \<and>
   ParseManifest (sample_lib [(''{}'', sample_manifest)])
     (sample_crawl 3 10000 (list_site [''https://other'', funding_url]))
     (Slice ''{}'') funding_url True empty_world =
     ((stamped, Some (StatusError ''https://git.example/p1/list'' 404)),
      snd (CheckProvenance (sample_lib [(''{}'', sample_manifest)])
        (sample_crawl 3 10000 (list_site [''https://other'', funding_url]))
        \<lparr>Ref = ''https://git.example/p1'', WellKnown = ''https://git.example/p1/list''\<rparr>
        funding_url
        (snd (run_checks (sample_lib [(''{}'', sample_manifest)])
          (sample_crawl 3 10000 (list_site [''https://other'', funding_url])) funding_url
          [\<lparr>Ref = ''https://a.example'', WellKnown = []\<rparr>,
           \<lparr>Ref = ''https://p1.example'', WellKnown = list_url\<rparr>] empty_world)))) \<and>
   map (\<lambda>r. Path (reqURL r)) (trace (snd (ParseManifest (sample_lib [(''{}'', sample_manifest)])
     (sample_crawl 3 10000 (list_site [''https://other'', funding_url]))
     (Slice ''{}'') funding_url True empty_world))) =
     [list_url, ''https://git.example/p1/list'']"
proof -
  let ?L = "sample_lib [(''{}'', sample_manifest)]"
  let ?c = "sample_crawl 3 10000 (list_site [''https://other'', funding_url])"
  let ?pre = "[\<lparr>Ref = ''https://a.example'', WellKnown = []\<rparr>,
               \<lparr>Ref = ''https://p1.example'', WellKnown = list_url\<rparr>]"
  let ?u = "\<lparr>Ref = ''https://git.example/p1'', WellKnown = ''https://git.example/p1/list''\<rparr>"
  let ?post = "[\<lparr>Ref = ''https://p2.example'', WellKnown = ''https://p2.example/list''\<rparr>,
                \<lparr>Ref = ''https://git.example/p2'', WellKnown = ''https://git.example/p2/list''\<rparr>]"
  let ?w1 = "snd (run_checks ?L ?c funding_url ?pre empty_world)"
  let ?w2 = "snd (CheckProvenance ?L ?c ?u funding_url ?w1)"
  have h1: "UnmarshalJSON ?L (Slice ''{}'') = (sample_manifest, None)" by code_simp
  have h2: "sc ?c (sample_manifest\<lparr>URL := funding_url, Body := Slice ''{}''\<rparr>) = (stamped, None)"
    by code_simp
  have pu: "prov_urls stamped = ?pre @ ?u # ?post" by code_simp
  have "fst (run_checks ?L ?c funding_url ?pre empty_world) = None" by code_simp
  then have r: "run_checks ?L ?c funding_url ?pre empty_world = (None, ?w1)"
    by (simp add: prod_eq_iff)
  have "fst (CheckProvenance ?L ?c ?u funding_url ?w1) =
      Some (StatusError ''https://git.example/p1/list'' 404)"
    by code_simp
  then have f: "CheckProvenance ?L ?c ?u funding_url ?w1 =
      (Some (StatusError ''https://git.example/p1/list'' 404), ?w2)"
    by (simp add: prod_eq_iff)
  note t = provenance_in_document_order [OF h1 h2, of empty_world ?pre ?u ?post ?w1
      "StatusError ''https://git.example/p1/list'' 404" ?w2, THEN conjunct2]
  from t pu r f have p: "ParseManifest ?L ?c (Slice ''{}'') funding_url True empty_world =
      ((stamped, Some (StatusError ''https://git.example/p1/list'' 404)), ?w2)"
    by blast
  have tr: "map (\<lambda>r. Path (reqURL r))
      (trace (snd (ParseManifest ?L ?c (Slice ''{}'') funding_url True empty_world))) =
      [list_url, ''https://git.example/p1/list'']"
    by code_simp
  have pu': "prov_urls stamped = ?pre @ ?u # ?post \<longleftrightarrow>
      prov_urls stamped =
     [\<lparr>Ref = ''https://a.example'', WellKnown = []\<rparr>,
      \<lparr>Ref = ''https://p1.example'', WellKnown = list_url\<rparr>,
      \<lparr>Ref = ''https://git.example/p1'', WellKnown = ''https://git.example/p1/list''\<rparr>,
      \<lparr>Ref = ''https://p2.example'', WellKnown = ''https://p2.example/list''\<rparr>,
      \<lparr>Ref = ''https://git.example/p2'', WellKnown = ''https://git.example/p2/list''\<rparr>]"
    by simp
  from h1 pu pu' p tr show ?thesis by blast
qed

text \<open>
  C4. An attempt whose response has a status other than 200 is terminal. Whatever number
  \<open>k\<close> of retried attempts came before it, and however many attempts are left, the attempt
  returns the error naming the URL and the status code with the retry flag off, fetch
  returns that error, and the attempt was the last: the world is the one after \<open>k + 1\<close>
  attempts, with \<open>k + 1\<close> new log lines.
\<close>

theorem non_200_is_terminal:
  assumes "int k < Attempts (opt c)"
    and "\<forall>i<k. transient (outcome L c u i w)"
    and "NewRequest L MethodGet u None = Inr req0"
    and "hc c (length (trace (after_attempts L c u k w)))
           (req0\<lparr>Header := (case headers c of Some h \<Rightarrow> h | None \<Rightarrow> []),
                 reqURL := (reqURL req0)\<lparr>RawQuery := []\<rparr>\<rparr>) = Inr r"
    and "StatusCode r \<noteq> 200"
  shows "outcome L c u k w = (NilSlice, False, Some (StatusError u (StatusCode r))) \<and>
         fetch L c u w = ((NilSlice, Some (StatusError u (StatusCode r))),
                          after_attempts L c u (Suc k) w) \<and>
         length (log (snd (fetch L c u w))) = length (log w) + k + 1"
proof -
  have o: "outcome L c u k w = (NilSlice, False, Some (StatusError u (StatusCode r)))"
    unfolding outcome_def
    by (simp add: attempt_Inr [OF assms(3)] prepared_get assms(4) answered_status [OF assms(5)])
  then have "\<not> transient (outcome L c u k w)" by (simp add: transient_def)
  from fetch_stop [OF assms(1,2) this]
  have f: "fetch L c u w = ((NilSlice, Some (StatusError u (StatusCode r))),
      after_attempts L c u (Suc k) w)"
    by (simp add: o returned_def)
  show ?thesis using o f by (simp add: after_attempts_log del: after_attempts.simps)
qed

theorem non_200_is_terminal_witness:
  "int 1 < Attempts (opt (sample_crawl 5 100 (flaky 1 (site [(funding_url, 503, ([], None))])))) \<and>
   transient (outcome (sample_lib [])
      (sample_crawl 5 100 (flaky 1 (site [(funding_url, 503, ([], None))]))) funding_url 0
      empty_world) \<and>
   outcome (sample_lib []) (sample_crawl 5 100 (flaky 1 (site [(funding_url, 503, ([], None))])))
     funding_url 1 empty_world = (NilSlice, False, Some (StatusError funding_url 503)) \<and>
   fetch (sample_lib []) (sample_crawl 5 100 (flaky 1 (site [(funding_url, 503, ([], None))])))
     funding_url empty_world =
     ((NilSlice, Some (StatusError funding_url 503)),
      after_attempts (sample_lib [])
        (sample_crawl 5 100 (flaky 1 (site [(funding_url, 503, ([], None))]))) funding_url
        (Suc 1) empty_world) \<and>
   length (log (snd (fetch (sample_lib [])
     (sample_crawl 5 100 (flaky 1 (site [(funding_url, 503, ([], None))]))) funding_url
     empty_world))) = 2"
proof -
  let ?L = "sample_lib []"
  let ?c = "sample_crawl 5 100 (flaky 1 (site [(funding_url, 503, ([], None))]))"
  let ?r = "\<lparr>StatusCode = 503, respBody = ([], None)\<rparr>"
  have h1: "int 1 < Attempts (opt ?c)"
    by (simp add: sample_crawl_def New_def sample_opt_def)
  have t0: "transient (outcome ?L ?c funding_url 0 empty_world)" by code_simp
  then have h2: "\<forall>i<1. transient (outcome ?L ?c funding_url i empty_world)" by simp
  have h3: "NewRequest ?L MethodGet funding_url None = Inr (sample_request funding_url [])"
    by code_simp
  have h4: "hc ?c (length (trace (after_attempts ?L ?c funding_url 1 empty_world)))
      ((sample_request funding_url [])
        \<lparr>Header := (case headers ?c of Some h \<Rightarrow> h | None \<Rightarrow> []),
         reqURL := (reqURL (sample_request funding_url []))\<lparr>RawQuery := []\<rparr>\<rparr>) = Inr ?r"
    by code_simp
  have h5: "StatusCode ?r \<noteq> 200" by simp
  note t = non_200_is_terminal [OF h1 h2 h3 h4 h5]
  from t have o: "outcome ?L ?c funding_url 1 empty_world =
      (NilSlice, False, Some (StatusError funding_url 503))"
    by simp
  from t have f: "fetch ?L ?c funding_url empty_world =
      ((NilSlice, Some (StatusError funding_url 503)),
       after_attempts ?L ?c funding_url (Suc 1) empty_world)"
    by simp
  from t have "length (log (snd (fetch ?L ?c funding_url empty_world))) =
      length (log empty_world) + 1 + 1"
    by blast
  then have l: "length (log (snd (fetch ?L ?c funding_url empty_world))) = 2"
    by (simp add: empty_world_def)
  from h1 t0 o f l show ?thesis by blast
qed

text \<open>
  C5. The retry loop. Attempts are made one after the other, each in the world the
  previous one left. If the attempts before number \<open>k + 1\<close> were transient failures and that
  one is not (it succeeded or its error is terminal), and \<open>k + 1\<close> is within \<open>Attempts\<close>,
  fetch stops there and returns its outcome. If the first \<open>Attempts\<close> attempts are all
  transient failures, fetch stops after them and returns the error of the last one. So for
  \<open>N\<close> transient failures followed by a success, fetch succeeds after \<open>N + 1\<close> attempts
  when \<open>Attempts = N + 1\<close>, and fails after \<open>N\<close> attempts with the error of attempt \<open>N\<close>
  when \<open>Attempts = N \<ge> 1\<close>. Each attempt writes one log line, so the log counts them.
\<close>

theorem retry_loop:
  "(int k < Attempts (opt c) \<and> (\<forall>i<k. transient (outcome L c u i w)) \<and>
      \<not> transient (outcome L c u k w) \<longrightarrow>
      fetch L c u w = (returned (outcome L c u k w), after_attempts L c u (Suc k) w)) \<and>
   (int k = Attempts (opt c) \<and> 0 < k \<and> (\<forall>i<k. transient (outcome L c u i w)) \<longrightarrow>
      fetch L c u w = ((NilSlice, snd (snd (outcome L c u (k - 1) w))),
                       after_attempts L c u k w) \<and>
      snd (snd (outcome L c u (k - 1) w)) \<noteq> None) \<and>
   ((\<forall>i<N. transient (outcome L c u i w)) \<and> snd (snd (outcome L c u N w)) = None \<longrightarrow>
      (Attempts (opt c) = int N + 1 \<longrightarrow>
         fetch L c u w = ((fst (outcome L c u N w), None), after_attempts L c u (N + 1) w)) \<and>
      (Attempts (opt c) = int N \<and> 0 < N \<longrightarrow>
         fetch L c u w = ((NilSlice, snd (snd (outcome L c u (N - 1) w))),
                          after_attempts L c u N w) \<and>
         snd (snd (outcome L c u (N - 1) w)) \<noteq> None)) \<and>
   length (log (after_attempts L c u k w)) = length (log w) + k"
proof -
  have ex: "fetch L c u w = ((NilSlice, snd (snd (outcome L c u (k - 1) w))),
                         after_attempts L c u k w) \<and>
        snd (snd (outcome L c u (k - 1) w)) \<noteq> None"
    if "int k = Attempts (opt c)" "0 < k" "\<forall>i<k. transient (outcome L c u i w)" for k
  proof -
    have "transient (outcome L c u (k - 1) w)" using that(2,3) by simp
    then obtain e where e: "snd (snd (outcome L c u (k - 1) w)) = Some e"
      by (auto simp: transient_def)
    show ?thesis using fetch_exhaust [OF that] e by (simp add: returned_def)
  qed
  have st: "fetch L c u w = ((fst (outcome L c u N w), None), after_attempts L c u (N + 1) w)"
    if "\<forall>i<N. transient (outcome L c u i w)" "snd (snd (outcome L c u N w)) = None"
      "Attempts (opt c) = int N + 1"
  proof -
    have nt: "\<not> transient (outcome L c u N w)" using that(2) by (simp add: transient_def)
    have "int N < Attempts (opt c)" using that(3) by simp
    from fetch_stop [OF this that(1) nt] show ?thesis
      using that(2) by (simp add: returned_def del: after_attempts.simps)
  qed
  have c1: "int k < Attempts (opt c) \<and> (\<forall>i<k. transient (outcome L c u i w)) \<and>
        \<not> transient (outcome L c u k w) \<longrightarrow>
        fetch L c u w = (returned (outcome L c u k w), after_attempts L c u (Suc k) w)"
    using fetch_stop by blast
  have c2: "int k = Attempts (opt c) \<and> 0 < k \<and> (\<forall>i<k. transient (outcome L c u i w)) \<longrightarrow>
        fetch L c u w = ((NilSlice, snd (snd (outcome L c u (k - 1) w))),
                         after_attempts L c u k w) \<and>
        snd (snd (outcome L c u (k - 1) w)) \<noteq> None"
    using ex by blast
  have c3: "(\<forall>i<N. transient (outcome L c u i w)) \<and> snd (snd (outcome L c u N w)) = None \<longrightarrow>
        (Attempts (opt c) = int N + 1 \<longrightarrow>
           fetch L c u w = ((fst (outcome L c u N w), None), after_attempts L c u (N + 1) w)) \<and>
        (Attempts (opt c) = int N \<and> 0 < N \<longrightarrow>
           fetch L c u w = ((NilSlice, snd (snd (outcome L c u (N - 1) w))),
                            after_attempts L c u N w) \<and>
           snd (snd (outcome L c u (N - 1) w)) \<noteq> None)"
  proof (intro impI conjI)
    assume h: "(\<forall>i<N. transient (outcome L c u i w)) \<and> snd (snd (outcome L c u N w)) = None"
    { assume "Attempts (opt c) = int N + 1"
      with h show "fetch L c u w =
          ((fst (outcome L c u N w), None), after_attempts L c u (N + 1) w)"
        using st by blast }
    { assume a: "Attempts (opt c) = int N \<and> 0 < N"
      with h have e: "fetch L c u w = ((NilSlice, snd (snd (outcome L c u (N - 1) w))),
                            after_attempts L c u N w) \<and>
           snd (snd (outcome L c u (N - 1) w)) \<noteq> None"
        using ex [of N] by simp
      from e show "fetch L c u w = ((NilSlice, snd (snd (outcome L c u (N - 1) w))),
                            after_attempts L c u N w)" by (rule conjunct1)
      from e show "snd (snd (outcome L c u (N - 1) w)) \<noteq> None" by (rule conjunct2) }
  qed
  have c4: "length (log (after_attempts L c u k w)) = length (log w) + k"
    by (simp add: after_attempts_log)
  from c1 c2 c3 c4 show ?thesis by (intro conjI)
qed

theorem retry_loop_witness:
  "transient (outcome (sample_lib []) (sample_crawl 3 100 (flaky 2 funding_site))
       funding_url 0 empty_world) \<and>
   transient (outcome (sample_lib []) (sample_crawl 3 100 (flaky 2 funding_site))
       funding_url 1 empty_world) \<and>
   snd (snd (outcome (sample_lib []) (sample_crawl 3 100 (flaky 2 funding_site))
       funding_url 2 empty_world)) = None \<and>
   fetch (sample_lib []) (sample_crawl 3 100 (flaky 2 funding_site)) funding_url empty_world =
     ((Slice ''{}'', None),
      after_attempts (sample_lib []) (sample_crawl 3 100 (flaky 2 funding_site)) funding_url 3
        empty_world) \<and>
   length (log (after_attempts (sample_lib []) (sample_crawl 3 100 (flaky 2 funding_site))
     funding_url 3 empty_world)) = 3 \<and>
   fetch (sample_lib []) (sample_crawl 2 100 (flaky 2 funding_site)) funding_url empty_world =
     ((NilSlice, Some (ExtError ''timeout'')),
      after_attempts (sample_lib []) (sample_crawl 2 100 (flaky 2 funding_site)) funding_url 2
        empty_world) \<and>
   length (log (after_attempts (sample_lib []) (sample_crawl 2 100 (flaky 2 funding_site))
     funding_url 2 empty_world)) = 2"
proof -
  let ?L = "sample_lib []"
  let ?c3 = "sample_crawl 3 100 (flaky 2 funding_site)"
  let ?c2 = "sample_crawl 2 100 (flaky 2 funding_site)"
  have t0: "transient (outcome ?L ?c3 funding_url 0 empty_world)" by code_simp
  have t1: "transient (outcome ?L ?c3 funding_url 1 empty_world)" by code_simp
  have o2: "outcome ?L ?c3 funding_url 2 empty_world = (Slice ''{}'', False, None)"
    by code_simp
  have t3: "\<forall>i<2. transient (outcome ?L ?c3 funding_url i empty_world)"
    using t0 t1 by (simp add: less_Suc_eq numeral_2_eq_2)
  have s0: "transient (outcome ?L ?c2 funding_url 0 empty_world)" by code_simp
  have s1: "outcome ?L ?c2 funding_url 1 empty_world = (NilSlice, True, Some (ExtError ''timeout''))"
    by code_simp
  have s2: "snd (snd (outcome ?L ?c2 funding_url 2 empty_world)) = None" by code_simp
  have s3: "\<forall>i<2. transient (outcome ?L ?c2 funding_url i empty_world)"
    using s0 s1 by (simp add: less_Suc_eq numeral_2_eq_2 transient_def)
  have a3: "Attempts (opt ?c3) = int 2 + 1"
    by (simp add: sample_crawl_def New_def sample_opt_def)
  have a2: "Attempts (opt ?c2) = int 2 \<and> 0 < (2::nat)"
    by (simp add: sample_crawl_def New_def sample_opt_def)
  have n3: "snd (snd (outcome ?L ?c3 funding_url 2 empty_world)) = None"
    using o2 by simp
  note r3 = retry_loop [of _ ?c3 ?L funding_url empty_world 2, THEN conjunct2, THEN conjunct2,
      THEN conjunct1]
  note r2 = retry_loop [of _ ?c2 ?L funding_url empty_world 2, THEN conjunct2, THEN conjunct2,
      THEN conjunct1]
  note k3 = retry_loop [of 3 ?c3 ?L funding_url empty_world, THEN conjunct2, THEN conjunct2,
      THEN conjunct2]
  note k2 = retry_loop [of 2 ?c2 ?L funding_url empty_world, THEN conjunct2, THEN conjunct2,
      THEN conjunct2]
  have f3: "fetch ?L ?c3 funding_url empty_world =
      ((fst (outcome ?L ?c3 funding_url 2 empty_world), None),
       after_attempts ?L ?c3 funding_url (2 + 1) empty_world)"
    using r3 t3 n3 a3 by blast
  have l3: "length (log (after_attempts ?L ?c3 funding_url 3 empty_world)) = 3"
    using k3 by (simp add: empty_world_def)
  have f2: "fetch ?L ?c2 funding_url empty_world =
      ((NilSlice, snd (snd (outcome ?L ?c2 funding_url (2 - 1) empty_world))),
       after_attempts ?L ?c2 funding_url 2 empty_world)"
    using r2 s3 s2 a2 by blast
  have l2: "length (log (after_attempts ?L ?c2 funding_url 2 empty_world)) = 2"
    using k2 by (simp add: empty_world_def)
  show ?thesis using t0 t1 n3 f3 l3 f2 l2 s1 o2 by simp
qed

text \<open>
  C6. An attempt that receives a 200 response whose body is longer than \<open>MaxBytes\<close>
  succeeds with the first \<open>MaxBytes\<close> bytes of the body and no error (whether or not the
  stream would have ended in a read error further on), and so does fetch when it makes an
  attempt at all. For a limit below zero the reader yields no byte.
\<close>

theorem body_is_cut_at_MaxBytes:
  assumes "NewRequest L MethodGet u None = Inr req0"
    and "hc c (length (trace w))
           (req0\<lparr>Header := (case headers c of Some h \<Rightarrow> h | None \<Rightarrow> []),
                 reqURL := (reqURL req0)\<lparr>RawQuery := []\<rparr>\<rparr>) = Inr r"
    and "StatusCode r = 200"
    and "MaxBytes (opt c) < int (length (fst (respBody r)))"
  shows "fst (doReq L c MethodGet u NilSlice (headers c) w) =
           (Slice (take (nat (MaxBytes (opt c))) (fst (respBody r))), False, None) \<and>
         (0 \<le> MaxBytes (opt c) \<longrightarrow>
            int (length (take (nat (MaxBytes (opt c))) (fst (respBody r)))) = MaxBytes (opt c)) \<and>
         (0 < Attempts (opt c) \<longrightarrow>
            fst (fetch L c u w) = (Slice (take (nat (MaxBytes (opt c))) (fst (respBody r))), None))"
proof -
  have rd: "ReadAll_LimitReader (respBody r) (MaxBytes (opt c)) =
      (take (nat (MaxBytes (opt c))) (fst (respBody r)), None)"
    using assms(4) by (simp add: ReadAll_LimitReader_def)
  have a: "fst (attempt L c u w) =
      (Slice (take (nat (MaxBytes (opt c))) (fst (respBody r))), False, None)"
    by (simp add: attempt_Inr [OF assms(1)] prepared_get assms(2) answered_def assms(3)
        StatusOK_def rd)
  have l: "0 \<le> MaxBytes (opt c) \<longrightarrow>
      int (length (take (nat (MaxBytes (opt c))) (fst (respBody r)))) = MaxBytes (opt c)"
    using assms(4) by simp
  have f: "0 < Attempts (opt c) \<longrightarrow>
      fst (fetch L c u w) = (Slice (take (nat (MaxBytes (opt c))) (fst (respBody r))), None)"
  proof
    assume att: "0 < Attempts (opt c)"
    have nt: "\<not> transient (outcome L c u 0 w)"
      by (simp add: outcome_def a transient_def)
    have "int 0 < Attempts (opt c)" using att by simp
    from fetch_stop [OF this _ nt]
    show "fst (fetch L c u w) =
        (Slice (take (nat (MaxBytes (opt c))) (fst (respBody r))), None)"
      by (simp add: outcome_def a returned_def)
  qed
  show ?thesis using a l f by (simp add: attempt_def)
qed

theorem body_is_cut_at_MaxBytes_witness:
  "MaxBytes (opt (sample_crawl 1 4 (site [(funding_url, 200, (''0123456789'', None))])))
     < int (length ''0123456789'') \<and>
   fst (doReq (sample_lib []) (sample_crawl 1 4 (site [(funding_url, 200, (''0123456789'', None))]))
          MethodGet funding_url NilSlice
          (headers (sample_crawl 1 4 (site [(funding_url, 200, (''0123456789'', None))])))
          empty_world) = (Slice ''0123'', False, None) \<and>
   fst (fetch (sample_lib []) (sample_crawl 1 4 (site [(funding_url, 200, (''0123456789'', None))]))
          funding_url empty_world) = (Slice ''0123'', None)"
proof -
  let ?L = "sample_lib []"
  let ?c = "sample_crawl 1 4 (site [(funding_url, 200, (''0123456789'', None))])"
  let ?r = "\<lparr>StatusCode = 200, respBody = (''0123456789'', None)\<rparr>"
  have h1: "NewRequest ?L MethodGet funding_url None = Inr (sample_request funding_url [])"
    by code_simp
  have h2: "hc ?c (length (trace empty_world))
      ((sample_request funding_url [])
        \<lparr>Header := (case headers ?c of Some h \<Rightarrow> h | None \<Rightarrow> []),
         reqURL := (reqURL (sample_request funding_url []))\<lparr>RawQuery := []\<rparr>\<rparr>) = Inr ?r"
    by code_simp
  have h3: "StatusCode ?r = 200" by simp
  have m: "MaxBytes (opt ?c) = 4" "Attempts (opt ?c) = 1"
    by (simp_all add: sample_crawl_def New_def sample_opt_def)
  have h4: "MaxBytes (opt ?c) < int (length (fst (respBody ?r)))"
    by (simp add: m)
  from body_is_cut_at_MaxBytes [OF h1 h2 h3 h4] h4 show ?thesis
    by (simp add: m)
qed

text \<open>
  C7. When decoding succeeded, the validator is applied to the decoded manifest with
  \<open>URL\<close> set to the source URL and \<open>Body\<close> to the input bytes, and the manifest
  ParseManifest returns is always the one the validator returned. On a validator error
  ParseManifest returns that manifest and that error and does nothing else; on success
  without provenance checking it returns the validator's manifest and no error.
\<close>

theorem ParseManifest_returns_validated:
  assumes "UnmarshalJSON L b = (m, None)"
  shows "fst (fst (ParseManifest L c b manifestURL cp w)) =
       fst (sc c (m\<lparr>URL := manifestURL, Body := b\<rparr>)) \<and>
     (sc c (m\<lparr>URL := manifestURL, Body := b\<rparr>) = (v, Some err) \<longrightarrow>
        ParseManifest L c b manifestURL cp w = ((v, Some err), w)) \<and>
     (sc c (m\<lparr>URL := manifestURL, Body := b\<rparr>) = (v, None) \<and> \<not> cp \<longrightarrow>
        ParseManifest L c b manifestURL cp w = ((v, None), w))"
  by (simp add: ParseManifest_def assms split: prod.splits option.splits)

theorem ParseManifest_returns_validated_witness:
  "UnmarshalJSON (sample_lib [(''{}'', zero_Manifest)]) (Slice ''{}'') = (zero_Manifest, None) \<and>
   ParseManifest (sample_lib [(''{}'', zero_Manifest)])
     ((sample_crawl 3 10000 funding_site)\<lparr>sc := require_projects\<rparr>)
     (Slice ''{}'') funding_url True empty_world =
     ((zero_Manifest\<lparr>URL := funding_url, Body := Slice ''{}''\<rparr>,
       Some (ExtError ''projects: required'')), empty_world) \<and>
   ParseManifest (sample_lib [(''{}'', zero_Manifest)]) (sample_crawl 3 10000 funding_site)
     (Slice ''{}'') funding_url False empty_world =
     ((zero_Manifest\<lparr>URL := funding_url, Body := Slice ''{}''\<rparr>, None), empty_world) \<and>
   fst (fst (ParseManifest (sample_lib [(''{}'', zero_Manifest)]) (sample_crawl 3 10000 funding_site)
     (Slice ''{}'') funding_url True empty_world)) =
     zero_Manifest\<lparr>URL := funding_url, Body := Slice ''{}''\<rparr>"
proof -
  let ?L = "sample_lib [(''{}'', zero_Manifest)]"
  let ?c = "sample_crawl 3 10000 funding_site"
  let ?cr = "?c\<lparr>sc := require_projects\<rparr>"
  let ?v = "zero_Manifest\<lparr>URL := funding_url, Body := Slice ''{}''\<rparr>"
  have h: "UnmarshalJSON ?L (Slice ''{}'') = (zero_Manifest, None)" by code_simp
  have r: "sc ?cr ?v = (?v, Some (ExtError ''projects: required''))"
    by (simp add: require_projects_def zero_Manifest_def)
  have a: "sc ?c ?v = (?v, None) \<and> \<not> False"
    by (simp add: sample_crawl_def New_def accept_def)
  note t1 = ParseManifest_returns_validated [OF h, of ?cr funding_url True empty_world ?v
      "ExtError ''projects: required''", THEN conjunct2, THEN conjunct1]
  note t2 = ParseManifest_returns_validated [OF h, of ?c funding_url False empty_world ?v,
      THEN conjunct2, THEN conjunct2]
  note t3 = ParseManifest_returns_validated [OF h, of ?c funding_url True empty_world,
      THEN conjunct1]
  from t1 r have e1: "ParseManifest ?L ?cr (Slice ''{}'') funding_url True empty_world =
      ((?v, Some (ExtError ''projects: required'')), empty_world)"
    by blast
  from t2 a have e2: "ParseManifest ?L ?c (Slice ''{}'') funding_url False empty_world =
      ((?v, None), empty_world)"
    by blast
  from t3 a have e3: "fst (fst (ParseManifest ?L ?c (Slice ''{}'') funding_url True empty_world)) = ?v"
    by simp
  from h e1 e2 e3 show ?thesis by blast
qed

text \<open>
  C8. A URL reference whose \<open>WellKnown\<close> is the empty string passes CheckProvenance with
  a nil error, and the world is left as it was: no request is sent and nothing is logged.
\<close>

theorem CheckProvenance_exempt:
  "WellKnown u = [] \<Longrightarrow> CheckProvenance L c u manifestURL w = (None, w)"
  by (simp add: CheckProvenance_def)

theorem CheckProvenance_exempt_witness:
  "WellKnown (wk []) = [] \<and>
   CheckProvenance (sample_lib []) (sample_crawl 3 100 (site [])) (wk [])
     ''https://a.example/funding.json'' empty_world = (None, empty_world)"
  using CheckProvenance_exempt [of "wk []" "sample_lib []" "sample_crawl 3 100 (site [])"
      "''https://a.example/funding.json''" empty_world]
  by (simp add: wk_def)

text \<open>
  C9. With \<open>Attempts\<close> zero or negative the loop of fetch makes no attempt: fetch returns
  the nil slice and a nil error in an unchanged world, and FetchManifest goes on to parse
  the nil slice.
\<close>

theorem fetch_without_attempts:
  "Attempts (opt c) \<le> 0 \<Longrightarrow>
   fetch L c u w = ((NilSlice, None), w) \<and>
   FetchManifest L c u w = ParseManifest L c NilSlice u True w"
proof -
  assume "Attempts (opt c) \<le> 0"
  then have "fetch_loop L c u 0 (NilSlice, False, None) w = ((NilSlice, False, None), w)"
    by (subst fetch_loop.simps) simp
  then have "fetch L c u w = ((NilSlice, None), w)"
    by (simp add: fetch_def)
  then show ?thesis by (simp add: FetchManifest_def)
qed

theorem fetch_without_attempts_witness:
  "Attempts (opt (sample_crawl 0 100 (site []))) \<le> 0 \<and>
   fetch (sample_lib []) (sample_crawl 0 100 (site [])) ''https://a.example/funding.json''
     empty_world = ((NilSlice, None), empty_world) \<and>
   FetchManifest (sample_lib []) (sample_crawl 0 100 (site []))
     ''https://a.example/funding.json'' empty_world =
     ((zero_Manifest, Some (ParseError (ExtError ''unexpected end of JSON input''))),
      empty_world)"
  using fetch_without_attempts [of "sample_crawl 0 100 (site [])" "sample_lib []"
      "''https://a.example/funding.json''" empty_world]
  by (simp add: sample_crawl_def New_def sample_opt_def ParseManifest_def sample_lib_def
      sample_decode_def)

text \<open>
  C10. fetch issues its GET with a nil request body, and doReq stores that body as the
  query of the request URL: the request handed to the client is the one \<open>http.NewRequest\<close>
  built, with the headers of the crawler and with an empty \<open>RawQuery\<close>, and every request
  fetch sends has an empty \<open>RawQuery\<close>, whatever query the URL carried.
\<close>

theorem get_query_is_emptied:
  "(NewRequest L MethodGet u None = Inr req0 \<longrightarrow>
      trace (snd (doReq L c MethodGet u NilSlice (headers c) w)) =
        trace w @ [req0\<lparr>Header := (case headers c of Some h \<Rightarrow> h | None \<Rightarrow> []),
                        reqURL := (reqURL req0)\<lparr>RawQuery := []\<rparr>\<rparr>]) \<and>
   (\<exists>rs. trace (snd (fetch L c u w)) = trace w @ rs \<and>
      (\<forall>r\<in>set rs. RawQuery (reqURL r) = []))"
proof
  show "NewRequest L MethodGet u None = Inr req0 \<longrightarrow>
      trace (snd (doReq L c MethodGet u NilSlice (headers c) w)) =
        trace w @ [req0\<lparr>Header := (case headers c of Some h \<Rightarrow> h | None \<Rightarrow> []),
                        reqURL := (reqURL req0)\<lparr>RawQuery := []\<rparr>\<rparr>]"
    using attempt_Inr [of L u req0 c w] by (auto simp: attempt_def prepared_get)
next
  obtain k where "snd (fetch L c u w) = after_attempts L c u k w"
    using fetch_loop_after [of L c u 0 "(NilSlice, False, None)" w] by (auto simp: fetch_world)
  then show "\<exists>rs. trace (snd (fetch L c u w)) = trace w @ rs \<and>
      (\<forall>r\<in>set rs. RawQuery (reqURL r) = [])"
    using after_attempts_trace [of L c u k w] by simp
qed

theorem get_query_is_emptied_witness:
  "NewRequest (sample_lib []) MethodGet ''https://a.example/funding.json?token=1'' None =
     Inr (sample_request funding_url ''token=1'') \<and>
   trace (snd (doReq (sample_lib []) (sample_crawl 3 100 funding_site) MethodGet
     ''https://a.example/funding.json?token=1'' NilSlice
     (headers (sample_crawl 3 100 funding_site)) empty_world)) =
     [(sample_request funding_url [])\<lparr>Header := [(''User-Agent'', ''portal'')]\<rparr>] \<and>
   trace (snd (fetch (sample_lib []) (sample_crawl 3 100 funding_site)
     ''https://a.example/funding.json?token=1'' empty_world)) \<noteq> [] \<and>
   map (\<lambda>r. RawQuery (reqURL r)) (trace (snd (fetch (sample_lib [])
     (sample_crawl 3 100 funding_site) ''https://a.example/funding.json?token=1''
     empty_world))) = [[]]"
proof -
  let ?L = "sample_lib []"
  let ?c = "sample_crawl 3 100 funding_site"
  let ?u = "''https://a.example/funding.json?token=1''"
  have h1: "NewRequest ?L MethodGet ?u None = Inr (sample_request funding_url ''token=1'')"
    by code_simp
  have h2: "trace (snd (fetch ?L ?c ?u empty_world)) \<noteq> []" by code_simp
  have h3: "headers ?c = Some [(''User-Agent'', ''portal'')]"
    by (simp add: sample_crawl_def New_def sample_opt_def)
  note t = get_query_is_emptied [of ?L ?u "sample_request funding_url ''token=1''" ?c empty_world]
  from t h1 have a: "trace (snd (doReq ?L ?c MethodGet ?u NilSlice (headers ?c) empty_world)) =
      [(sample_request funding_url [])\<lparr>Header := [(''User-Agent'', ''portal'')]\<rparr>]"
    by (simp add: h3 empty_world_def sample_request_def)
  from t have b: "\<forall>r\<in>set (trace (snd (fetch ?L ?c ?u empty_world))). RawQuery (reqURL r) = []"
    by (auto simp: empty_world_def)
  have "length (trace (snd (fetch ?L ?c ?u empty_world))) = 1" by code_simp
  then obtain r where r: "trace (snd (fetch ?L ?c ?u empty_world)) = [r]"
    by (cases "trace (snd (fetch ?L ?c ?u empty_world))") auto
  with b have d: "map (\<lambda>r. RawQuery (reqURL r)) (trace (snd (fetch ?L ?c ?u empty_world))) = [[]]"
    by simp
  show ?thesis using h1 h2 a d by simp
qed

end
